theory Spec2Isabelle
  imports Complex_Main "HOL-Library.Sublist"
begin

section \<open>The spaCy multiprocessing notebook\<close>

text \<open>
  A shallow embedding of the functions of \<^verbatim>\<open>spacy_multiprocess.ipynb\<close>: the regex
  cleaner, the lemmatizers of the three workflows, and the chunk / dispatch / flatten
  orchestration. The module-level globals of the notebook (\<^verbatim>\<open>limit\<close>, \<^verbatim>\<open>stopwords\<close>,
  \<^verbatim>\<open>nlp\<close>, \<^verbatim>\<open>df_preproc\<close>) are explicit arguments of the functions that read them.
  The external libraries are modelled by their documented contract only: the spaCy
  pipeline \<^verbatim>\<open>nlp\<close> is an arbitrary function from a text to its tokens, \<^verbatim>\<open>nlp.pipe\<close> yields
  one document per text in order, and the joblib executor returns the results of its
  tasks in submission order. The functions that call \<^verbatim>\<open>str.lower()\<close> take as first
  argument \<open>ucd_lower\<close>, the part of the Unicode case tables that the model does not
  tabulate.
\<close>

subsection \<open>Python values\<close>

datatype py_error = ValueError

text \<open>
  A Python \<^verbatim>\<open>str\<close> is the list of its code points. \<open>py_str\<close> is the \<^verbatim>\<open>str\<close> of a literal
  written with characters below 256.
\<close>

type_synonym str = "nat list"

definition py_str :: "string \<Rightarrow> str" where
  "py_str s = map of_char s"

text \<open>
  \<^verbatim>\<open>str.lower()\<close> and the property of a code point of being uppercase follow the case
  tables of the Unicode database. The model tabulates them for the code points below 256
  and for U+03D2 (978), an uppercase letter that has no lowercase form: A-Z and the
  Latin-1 capitals (192 to 222 except the multiplication sign 215) are uppercase and
  \<^verbatim>\<open>lower\<close> adds 32 to each; 978 is uppercase and \<^verbatim>\<open>lower\<close> leaves it, as it leaves every
  other tabulated code point. On a string of tabulated code points \<^verbatim>\<open>str.lower()\<close> works
  code point by code point. For every other string \<^verbatim>\<open>str.lower()\<close> is the parameter
  \<open>ucd_lower\<close>, and for every other code point the property is the parameter
  \<open>ucd_isupper\<close>: the rest of the Unicode tables, about which nothing is assumed.
\<close>

definition tabulated :: "nat \<Rightarrow> bool" where
  "tabulated c = (c < 256 \<or> c = 978)"

definition table_isupper :: "nat \<Rightarrow> bool" where
  "table_isupper c = ((65 \<le> c \<and> c \<le> 90) \<or> (192 \<le> c \<and> c \<le> 222 \<and> c \<noteq> 215) \<or> c = 978)"

definition table_lower :: "nat \<Rightarrow> nat" where
  "table_lower c =
     (if (65 \<le> c \<and> c \<le> 90) \<or> (192 \<le> c \<and> c \<le> 222 \<and> c \<noteq> 215) then c + 32 else c)"

definition lower :: "(str \<Rightarrow> str) \<Rightarrow> str \<Rightarrow> str" where
  "lower ucd_lower s = (if list_all tabulated s then map table_lower s else ucd_lower s)"

definition is_uppercase :: "(nat \<Rightarrow> bool) \<Rightarrow> nat \<Rightarrow> bool" where
  "is_uppercase ucd_isupper c = (if tabulated c then table_isupper c else ucd_isupper c)"

text \<open>
  \<^verbatim>\<open>xs[start:stop]\<close> on a sequence: a negative index counts from the end, and both
  indices are clamped to the sequence, so a slice never raises.
\<close>

definition py_slice :: "'a list \<Rightarrow> int \<Rightarrow> int \<Rightarrow> 'a list" where
  "py_slice xs start stop =
     (let n = int (length xs);
          lo = (if start < 0 then max (start + n) 0 else min start n);
          hi = (if stop < 0 then max (stop + n) 0 else min stop n)
      in take (nat (hi - lo)) (drop (nat lo) xs))"

text \<open>
  The values of \<^verbatim>\<open>range(start, stop, step)\<close> for a non-zero step: ascending while below
  \<^verbatim>\<open>stop\<close> for a positive step, descending while above it for a negative one.
\<close>

function range_values :: "int \<Rightarrow> int \<Rightarrow> int \<Rightarrow> int list" where
  "range_values start stop step =
     (if (0 < step \<and> start < stop) \<or> (step < 0 \<and> stop < start)
      then start # range_values (start + step) stop step
      else [])"
  by pat_completeness auto
termination
  by (relation "measure (\<lambda>(start, stop, step).
        nat (if 0 < step then stop - start else start - stop))") auto

declare range_values.simps [simp del]

text \<open>\<^verbatim>\<open>range\<close> raises ValueError on a zero step.\<close>

definition py_range :: "int \<Rightarrow> int \<Rightarrow> int \<Rightarrow> py_error + int list" where
  "py_range start stop step =
     (if step = 0 then Inl ValueError else Inr (range_values start stop step))"

text \<open>\<^verbatim>\<open>sep.join(parts)\<close>.\<close>

fun join :: "str \<Rightarrow> str list \<Rightarrow> str" where
  "join sep [] = []"
| "join sep [x] = x"
| "join sep (x # y # ys) = x @ sep @ join sep (y # ys)"

subsection \<open>The cleaner\<close>

text \<open>
  A DataFrame is the list of its rows, in positional order. The table read from the
  input file has the columns \<^verbatim>\<open>date\<close>, \<^verbatim>\<open>headline\<close> and \<^verbatim>\<open>content\<close>; the cleaner adds the
  column \<^verbatim>\<open>clean\<close>. A column such as \<^verbatim>\<open>df_preproc['clean']\<close> is the list of its values,
  \<open>map clean df_preproc\<close>, and \<^verbatim>\<open>column.progress_apply(f)\<close> is \<open>map f\<close> on it.
\<close>

datatype timestamp = Timestamp (year: int) (month: int) (day: int)

record row =
  date :: timestamp
  headline :: str
  content :: str

record clean_row = row +
  clean :: str

text \<open>
  The pattern \<^verbatim>\<open>[A-Za-z0-9\-]{3,50}\<close>. \<open>in_class\<close> is its character class; \<open>match_at\<close>
  is the greedy match of the pattern at the start of a string (as many class
  characters as there are, at most 50, and at least 3 or no match).
\<close>

definition in_class :: "nat \<Rightarrow> bool" where
  "in_class c =
     ((65 \<le> c \<and> c \<le> 90) \<or> (97 \<le> c \<and> c \<le> 122) \<or> (48 \<le> c \<and> c \<le> 57) \<or> c = 45)"

definition match_at :: "str \<Rightarrow> str option" where
  "match_at s = (let m = takeWhile in_class (take 50 s) in
     if 3 \<le> length m then Some m else None)"

text \<open>
  \<^verbatim>\<open>pattern.findall(s)\<close>: the string is scanned from left to right; a match is
  collected and the scan goes on after its end, otherwise the scan moves one
  character on.
\<close>

function findall :: "str \<Rightarrow> str list" where
  "findall s =
     (if s = [] then []
      else (case match_at s of
              Some m \<Rightarrow> m # findall (drop (length m) s)
            | None \<Rightarrow> findall (tl s)))"
  by pat_completeness auto
termination
proof (relation "measure length")
  fix s :: str and m :: str
  assume "s \<noteq> []" and "match_at s = Some m"
  then have "0 < length m" "0 < length s"
    by (auto simp: match_at_def Let_def split: if_splits)
  then show "(drop (length m) s, s) \<in> measure length"
    by simp
qed auto

declare findall.simps [simp del]

text \<open>
  \<^verbatim>\<open>cleaner(df)\<close>, with the global \<^verbatim>\<open>limit\<close> as first argument: the column \<^verbatim>\<open>clean\<close> is
  added to every row, then \<^verbatim>\<open>df.iloc[:limit, :]\<close> is returned when the limit is
  positive and the whole table otherwise.
\<close>

definition add_clean :: "row \<Rightarrow> clean_row" where
  "add_clean r = \<lparr>date = date r, headline = headline r, content = content r,
                  clean = join (py_str '' '') (findall (content r))\<rparr>"

definition cleaner :: "int \<Rightarrow> row list \<Rightarrow> clean_row list" where
  "cleaner limit df =
     (let df' = map add_clean df
      in if limit > 0 then py_slice df' 0 limit else df')"

subsection \<open>The lemmatizers\<close>

text \<open>
  A spaCy token, with the three attributes the notebook reads: \<^verbatim>\<open>tok.text\<close>,
  \<^verbatim>\<open>tok.lemma_\<close> and \<^verbatim>\<open>tok.is_alpha\<close> (the first two as \<open>tok_text\<close> and \<open>tok_lemma\<close>).
  A \<^verbatim>\<open>Doc\<close> is the list of its tokens.
\<close>

record token =
  tok_text :: str
  tok_lemma :: str
  is_alpha :: bool

type_synonym doc = "token list"

text \<open>
  The two comprehensions of the source; \<open>ucd_lower\<close> is the parameter of \<^verbatim>\<open>lower()\<close>.
\<close>

definition lemmatize_pipe :: "(str \<Rightarrow> str) \<Rightarrow> str set \<Rightarrow> doc \<Rightarrow> str list" where
  "lemmatize_pipe ucd_lower stopwords doc =
     [lower ucd_lower (tok_lemma tok). tok \<leftarrow> doc,
        is_alpha tok \<and> lower ucd_lower (tok_text tok) \<notin> stopwords]"

definition lemmatize ::
  "(str \<Rightarrow> str) \<Rightarrow> (str \<Rightarrow> doc) \<Rightarrow> str set \<Rightarrow> str \<Rightarrow> str list" where
  "lemmatize ucd_lower nlp stopwords text =
     (let doc = nlp text
      in [lower ucd_lower (tok_lemma tok). tok \<leftarrow> doc,
            is_alpha tok \<and> lower ucd_lower (tok_text tok) \<notin> stopwords])"

text \<open>\<^verbatim>\<open>nlp.pipe(texts, batch_size)\<close> yields the document of each text, in order.\<close>

definition nlp_pipe :: "(str \<Rightarrow> doc) \<Rightarrow> str list \<Rightarrow> nat \<Rightarrow> doc list" where
  "nlp_pipe nlp texts batch_size = map nlp texts"

text \<open>
  The loop \<^verbatim>\<open>for doc in ...: preproc_pipe.append(lemmatize_pipe(doc))\<close> shared by
  \<^verbatim>\<open>preprocess_pipe\<close> and \<^verbatim>\<open>process_chunk\<close>, with the list built so far as accumulator.
\<close>

fun append_loop ::
  "(str \<Rightarrow> str) \<Rightarrow> str set \<Rightarrow> doc list \<Rightarrow> str list list \<Rightarrow> str list list" where
  "append_loop ucd_lower stopwords [] preproc_pipe = preproc_pipe"
| "append_loop ucd_lower stopwords (doc # docs) preproc_pipe =
     append_loop ucd_lower stopwords docs
       (preproc_pipe @ [lemmatize_pipe ucd_lower stopwords doc])"

definition preprocess_pipe ::
  "(str \<Rightarrow> str) \<Rightarrow> (str \<Rightarrow> doc) \<Rightarrow> str set \<Rightarrow> str list \<Rightarrow> str list list" where
  "preprocess_pipe ucd_lower nlp stopwords texts =
     append_loop ucd_lower stopwords (nlp_pipe nlp texts 20) []"

subsection \<open>Chunking, dispatch and flattening\<close>

text \<open>
  \<^verbatim>\<open>chunker(iterable, total_length, chunksize)\<close>: one slice per value of
  \<^verbatim>\<open>range(0, total_length, chunksize)\<close>. The range is built when the generator is
  created, so a zero chunk size raises at once.
\<close>

definition chunker :: "'a list \<Rightarrow> int \<Rightarrow> int \<Rightarrow> py_error + 'a list list" where
  "chunker iterable total_length chunksize =
     (case py_range 0 total_length chunksize of
        Inl e \<Rightarrow> Inl e
      | Inr positions \<Rightarrow>
          Inr (map (\<lambda>pos. py_slice iterable pos (pos + chunksize)) positions))"

fun flatten :: "'a list list \<Rightarrow> 'a list" where
  "flatten [] = []"
| "flatten (sub # list_of_lists) = sub @ flatten list_of_lists"

definition process_chunk ::
  "(str \<Rightarrow> str) \<Rightarrow> (str \<Rightarrow> doc) \<Rightarrow> str set \<Rightarrow> str list \<Rightarrow> str list list" where
  "process_chunk ucd_lower nlp stopwords texts =
     append_loop ucd_lower stopwords (nlp_pipe nlp texts 20) []"

text \<open>
  The joblib executor \<^verbatim>\<open>Parallel(n_jobs=...)\<close> applied to the tasks \<^verbatim>\<open>delayed(f)(x)\<close>: the
  list of the results \<^verbatim>\<open>f(x)\<close>, in the order the tasks were submitted, whatever the
  number of workers.
\<close>

definition Parallel :: "nat \<Rightarrow> ('a \<Rightarrow> 'b) \<Rightarrow> 'a list \<Rightarrow> 'b list" where
  "Parallel n_jobs f tasks = map f tasks"

text \<open>
  \<^verbatim>\<open>preprocess_parallel(texts, chunksize)\<close>; the total length given to the chunker is
  \<^verbatim>\<open>len(df_preproc)\<close>, the length of the global table, not of \<^verbatim>\<open>texts\<close>.
\<close>

definition preprocess_parallel ::
  "(str \<Rightarrow> str) \<Rightarrow> (str \<Rightarrow> doc) \<Rightarrow> str set \<Rightarrow> clean_row list \<Rightarrow> str list \<Rightarrow> int
     \<Rightarrow> py_error + str list list" where
  "preprocess_parallel ucd_lower nlp stopwords df_preproc texts chunksize =
     (case chunker texts (int (length df_preproc)) chunksize of
        Inl e \<Rightarrow> Inl e
      | Inr chunks \<Rightarrow>
          Inr (flatten (Parallel 7 (process_chunk ucd_lower nlp stopwords) chunks)))"

subsection \<open>The language of the pattern\<close>

text \<open>
  A string matches \<^verbatim>\<open>[A-Za-z0-9\-]{3,50}\<close> as a whole when it has between 3 and 50
  characters, all of the class; a string has a match when one of its substrings does.
\<close>

definition matches_pattern :: "str \<Rightarrow> bool" where
  "matches_pattern t = (3 \<le> length t \<and> length t \<le> 50 \<and> (\<forall>c \<in> set t. in_class c))"

definition has_match :: "str \<Rightarrow> bool" where
  "has_match g = (\<exists>u. sublist u g \<and> matches_pattern u)"

subsection \<open>Example data\<close>

text \<open>
  The example of the specification: the documents "The cat sat" and "Dogs run fast" (the
  first inside markup, for the cleaner), the stopword set {"the"}, and an annotator that
  knows the tokens and lemmas of these two texts. The examples stay within the tabulated
  code points, so the rest of the Unicode tables is never consulted; \<open>example_ucd_lower\<close>
  and \<open>example_ucd_isupper\<close> stand for it.
\<close>

definition example_ucd_lower :: "str \<Rightarrow> str" where
  "example_ucd_lower s = []"

definition example_ucd_isupper :: "nat \<Rightarrow> bool" where
  "example_ucd_isupper c = False"

definition example_stopwords :: "str set" where
  "example_stopwords = {py_str ''the''}"

definition example_nlp :: "str \<Rightarrow> doc" where
  "example_nlp s =
     (if s = py_str ''The cat sat'' then
        [\<lparr>tok_text = py_str ''The'', tok_lemma = py_str ''the'', is_alpha = True\<rparr>,
         \<lparr>tok_text = py_str ''cat'', tok_lemma = py_str ''cat'', is_alpha = True\<rparr>,
         \<lparr>tok_text = py_str ''sat'', tok_lemma = py_str ''sit'', is_alpha = True\<rparr>]
      else if s = py_str ''Dogs run fast'' then
        [\<lparr>tok_text = py_str ''Dogs'', tok_lemma = py_str ''Dog'', is_alpha = True\<rparr>,
         \<lparr>tok_text = py_str ''run'', tok_lemma = py_str ''run'', is_alpha = True\<rparr>,
         \<lparr>tok_text = py_str ''fast'', tok_lemma = py_str ''fast'', is_alpha = True\<rparr>]
      else [])"

definition example_df :: "row list" where
  "example_df =
     [\<lparr>date = Timestamp 2016 4 1, headline = py_str ''Cats'',
        content = py_str ''<p>The cat sat!</p>''\<rparr>,
      \<lparr>date = Timestamp 2016 4 2, headline = py_str ''Dogs'',
        content = py_str ''Dogs run fast''\<rparr>]"

definition example_df_preproc :: "clean_row list" where
  "example_df_preproc = cleaner 0 example_df"

section \<open>Auxiliary facts\<close>

subsection \<open>Ranges, slices and chunks\<close>

lemma upt_Suc_shift: "[0..<Suc n] = 0 # map Suc [0..<n]"
  by (simp only: map_Suc_upt upt_conv_Cons [of 0 "Suc n"] zero_less_Suc if_True)

lemma range_values_upto:
  assumes "0 < step"
  shows "stop \<le> start + int n * step \<Longrightarrow> (0 < n \<longrightarrow> start + (int n - 1) * step < stop)
     \<Longrightarrow> range_values start stop step = map (\<lambda>i. start + int i * step) [0..<n]"
proof (induction n arbitrary: start)
  case 0
  then show ?case using assms by (simp add: range_values.simps [of start])
next
  case (Suc n)
  from Suc.prems(2) have below: "start + int n * step < stop" by simp
  moreover have "0 \<le> int n * step" using assms by simp
  ultimately have "start < stop" by linarith
  then have unfold: "range_values start stop step = start # range_values (start + step) stop step"
    using assms by (simp add: range_values.simps [of start])
  have "stop \<le> start + step + int n * step"
    using Suc.prems(1) by (simp add: algebra_simps)
  moreover have "0 < n \<longrightarrow> start + step + (int n - 1) * step < stop"
    using below by (simp add: algebra_simps)
  ultimately have "range_values (start + step) stop step =
      map (\<lambda>i. start + step + int i * step) [0..<n]"
    by (rule Suc.IH)
  also have "\<dots> = map (\<lambda>i. start + int i * step) (map Suc [0..<n])"
    by (simp add: algebra_simps)
  finally show ?case
    unfolding unfold upt_Suc_shift by simp
qed

lemma ceil_div_bounds:
  fixes a k :: int
  assumes "0 < k"
  shows "a \<le> ((a + k - 1) div k) * k" and "((a + k - 1) div k - 1) * k < a"
proof -
  let ?b = "a + k - 1"
  have eq: "?b div k * k + ?b mod k = ?b" by (rule div_mult_mod_eq)
  have "0 \<le> ?b mod k" "?b mod k < k" using assms by simp_all
  with eq show "a \<le> (?b div k) * k" by linarith
  have "(?b div k - 1) * k = ?b div k * k - k" by (simp add: algebra_simps)
  with eq \<open>0 \<le> ?b mod k\<close> show "((a + k - 1) div k - 1) * k < a" by linarith
qed

lemma range_values_pos:
  assumes "0 < step"
  shows "range_values 0 stop step =
     map (\<lambda>i. int i * step) [0..<nat ((stop + step - 1) div step)]"
proof -
  let ?q = "(stop + step - 1) div step"
  have b: "stop \<le> ?q * step" "(?q - 1) * step < stop"
    using ceil_div_bounds [OF assms, of stop] by simp_all
  show ?thesis
  proof (cases "0 < ?q")
    case True
    then have "int (nat ?q) = ?q" by simp
    with b have "stop \<le> 0 + int (nat ?q) * step"
      "0 < nat ?q \<longrightarrow> 0 + (int (nat ?q) - 1) * step < stop" by simp_all
    from range_values_upto [OF assms this] show ?thesis by simp
  next
    case False
    then have "?q * step \<le> 0" using assms by (simp add: mult_le_0_iff)
    with b have "stop \<le> 0" by linarith
    with False assms show ?thesis by (simp add: range_values.simps [of 0])
  qed
qed

lemma py_slice_nonneg:
  "0 \<le> a \<Longrightarrow> 0 \<le> k \<Longrightarrow> py_slice xs a (a + k) = take (nat k) (drop (nat a) xs)"
  by (auto simp: py_slice_def Let_def min_def max_def)

lemma concat_chunks:
  "concat (map (\<lambda>i. take k (drop (i * k) xs)) [0..<n]) = take (n * k) xs"
proof (induction n)
  case 0
  show ?case by simp
next
  case (Suc n)
  have "take (Suc n * k) xs = take (n * k + k) xs" by (simp add: add.commute)
  also have "\<dots> = take (n * k) xs @ take k (drop (n * k) xs)" by (rule take_add)
  finally show ?case using Suc by simp
qed

lemma flatten_concat: "flatten xss = concat xss"
  by (induction xss) simp_all

lemma append_loop_map:
  "append_loop ucd_lower sw docs acc = acc @ map (lemmatize_pipe ucd_lower sw) docs"
  by (induction docs arbitrary: acc) simp_all

lemma chunker_pos:
  assumes "0 < chunksize"
  shows "chunker xs total_length chunksize =
     Inr (map (\<lambda>i. take (nat chunksize) (drop (i * nat chunksize) xs))
            [0..<nat ((total_length + chunksize - 1) div chunksize)])"
proof -
  have "py_slice xs (int i * chunksize) (int i * chunksize + chunksize) =
          take (nat chunksize) (drop (i * nat chunksize) xs)" for i
  proof -
    have "nat (int i * chunksize) = i * nat chunksize"
      using assms by (simp add: nat_mult_distrib)
    with py_slice_nonneg [of "int i * chunksize" chunksize xs] assms show ?thesis by simp
  qed
  with assms show ?thesis
    by (simp add: chunker_def py_range_def range_values_pos)
qed


lemma chunk_count_bounds:
  fixes T :: nat and K :: int
  assumes "0 < K"
  defines "n \<equiv> nat ((int T + K - 1) div K)"
  shows "T \<le> n * nat K" and "0 < n \<Longrightarrow> (n - 1) * nat K < T"
    and "int n = (int T + K - 1) div K"
proof -
  let ?q = "(int T + K - 1) div K"
  have b: "int T \<le> ?q * K" "(?q - 1) * K < int T"
    using ceil_div_bounds [OF assms(1), of "int T"] by simp_all
  have "0 \<le> ?q"
  proof (rule ccontr)
    assume "\<not> 0 \<le> ?q"
    then have "?q * K < 0" using assms(1) by (simp add: mult_less_0_iff)
    with b(1) show False by simp
  qed
  then show q: "int n = ?q" by (simp add: n_def)
  have K: "int (nat K) = K" using assms(1) by simp
  have "int T \<le> int (n * nat K)" using b(1) q K by simp
  then show "T \<le> n * nat K" by (simp only: of_nat_le_iff)
  show "(n - 1) * nat K < T" if "0 < n"
  proof -
    from that have "int (n - 1) = ?q - 1" using q by simp
    then have "int ((n - 1) * nat K) < int T" using b(2) K by simp
    then show ?thesis by (simp only: of_nat_less_iff)
  qed
qed

lemma ceil_div_ceiling:
  fixes a K :: int
  assumes "0 < K"
  shows "(a + K - 1) div K = \<lceil>real_of_int a / real_of_int K\<rceil>"
proof -
  let ?q = "(a + K - 1) div K"
  have b: "a \<le> ?q * K" "(?q - 1) * K < a"
    using ceil_div_bounds [OF assms, of a] by simp_all
  have K: "0 < real_of_int K" using assms by simp
  have "real_of_int a \<le> real_of_int (?q * K)" using b(1) by (simp only: of_int_le_iff)
  then have le: "real_of_int a / real_of_int K \<le> real_of_int ?q"
    using K by (simp add: pos_divide_le_eq)
  have "real_of_int ((?q - 1) * K) < real_of_int a" using b(2) by (simp only: of_int_less_iff)
  then have "real_of_int ?q - 1 < real_of_int a / real_of_int K"
    using K by (simp add: pos_less_divide_eq)
  with le show ?thesis by (simp add: ceiling_unique)
qed

lemma chunk_count_ceiling:
  fixes T :: nat and K :: int
  assumes "0 < K"
  shows "(int T + K - 1) div K = \<lceil>real T / real_of_int K\<rceil>"
  using ceil_div_ceiling [OF assms, of "int T"] by simp

lemma chunk_lengths:
  fixes k n :: nat
  assumes "0 < k" and "i < n" and "(n - 1) * k < length xs"
  shows "take k (drop (i * k) xs) \<noteq> []" and "length (take k (drop (i * k) xs)) \<le> k"
    and "Suc i < n \<Longrightarrow> length (take k (drop (i * k) xs)) = k"
proof -
  from assms(2) have "i \<le> n - 1" by linarith
  then have "i * k \<le> (n - 1) * k" by (rule mult_le_mono1)
  with assms(3) have "i * k < length xs" by linarith
  with assms(1) show "take k (drop (i * k) xs) \<noteq> []" by simp
  show "length (take k (drop (i * k) xs)) \<le> k" by simp
  show "length (take k (drop (i * k) xs)) = k" if "Suc i < n"
  proof -
    from that have "Suc i \<le> n - 1" by linarith
    then have "Suc i * k \<le> (n - 1) * k" by (rule mult_le_mono1)
    with assms(3) have "Suc i * k < length xs" by linarith
    then have "i * k + k < length xs" by (simp add: add.commute)
    then show ?thesis by simp
  qed
qed

lemma singleton_chunks:
  "map (\<lambda>i. take 1 (drop (i * 1) xs)) [0..<length xs] = map (\<lambda>x. [x]) xs"
proof (rule nth_equalityI)
  show "length (map (\<lambda>i. take 1 (drop (i * 1) xs)) [0..<length xs]) = length (map (\<lambda>x. [x]) xs)"
    by simp
next
  fix i
  assume "i < length (map (\<lambda>i. take 1 (drop (i * 1) xs)) [0..<length xs])"
  then have i: "i < length xs" by simp
  then have "drop i xs = xs ! i # drop (Suc i) xs" by (simp add: Cons_nth_drop_Suc)
  with i show "map (\<lambda>i. take 1 (drop (i * 1) xs)) [0..<length xs] ! i = map (\<lambda>x. [x]) xs ! i"
    by simp
qed

lemma range_values_neg: "K < 0 \<Longrightarrow> 0 \<le> T \<Longrightarrow> range_values 0 T K = []"
  by (simp add: range_values.simps [of 0])

lemma chunker_concat:
  assumes "0 < K"
  shows "\<exists>chunks. chunker xs T K = Inr chunks
     \<and> concat chunks = take (nat ((T + K - 1) div K) * nat K) xs"
  by (simp add: chunker_pos [OF assms] concat_chunks)

subsection \<open>The loop over documents and the dispatch\<close>

lemma process_chunk_map:
  "process_chunk ucd_lower nlp sw texts = map (\<lambda>t. lemmatize_pipe ucd_lower sw (nlp t)) texts"
  by (simp add: process_chunk_def nlp_pipe_def append_loop_map comp_def)

lemma preprocess_pipe_map:
  "preprocess_pipe ucd_lower nlp sw texts = map (\<lambda>t. lemmatize_pipe ucd_lower sw (nlp t)) texts"
  by (simp add: preprocess_pipe_def nlp_pipe_def append_loop_map comp_def)

lemma lemmatize_eq_pipe: "lemmatize ucd_lower nlp sw t = lemmatize_pipe ucd_lower sw (nlp t)"
  by (simp add: lemmatize_def lemmatize_pipe_def)

lemma dispatch_flatten:
  "flatten (Parallel n_jobs (process_chunk ucd_lower nlp sw) chunks) =
     map (\<lambda>t. lemmatize_pipe ucd_lower sw (nlp t)) (concat chunks)"
proof -
  have "process_chunk ucd_lower nlp sw = map (\<lambda>t. lemmatize_pipe ucd_lower sw (nlp t))"
    by (rule ext) (rule process_chunk_map)
  then show ?thesis
    by (simp add: flatten_concat Parallel_def map_concat)
qed

lemma preprocess_parallel_pos:
  assumes "0 < chunksize"
  shows "preprocess_parallel ucd_lower nlp sw df_preproc texts chunksize =
     Inr (map (\<lambda>t. lemmatize_pipe ucd_lower sw (nlp t))
            (take (nat ((int (length df_preproc) + chunksize - 1) div chunksize) * nat chunksize)
               texts))"
  by (simp add: preprocess_parallel_def chunker_pos [OF assms] dispatch_flatten concat_chunks)

lemma preprocess_parallel_same_length:
  assumes "0 < chunksize" and "length texts = length df_preproc"
  shows "preprocess_parallel ucd_lower nlp sw df_preproc texts chunksize =
     Inr (map (\<lambda>t. lemmatize_pipe ucd_lower sw (nlp t)) texts)"
  using chunk_count_bounds(1) [OF assms(1), of "length df_preproc"] assms(2)
  by (simp add: preprocess_parallel_pos [OF assms(1)])

subsection \<open>Lower case and the comprehension\<close>

lemma table_lower_latin1:
  assumes "c < 256"
  shows "table_lower c < 256" and "\<not> table_isupper (table_lower c)"
    and "table_lower (table_lower c) = table_lower c"
  using assms by (auto simp: table_lower_def table_isupper_def)

lemma lower_latin1:
  assumes "list_all (\<lambda>c. c < 256) s"
  shows "lower ucd_lower s = map table_lower s"
    and "list_all (\<lambda>c. c < 256) (lower ucd_lower s)"
    and "list_all (\<lambda>c. \<not> is_uppercase ucd_isupper c) (lower ucd_lower s)"
    and "lower ucd_lower (lower ucd_lower s) = lower ucd_lower s"
proof -
  from assms have "list_all tabulated s"
    by (auto simp: list_all_iff tabulated_def)
  then show eq: "lower ucd_lower s = map table_lower s"
    by (simp add: lower_def)
  from assms show small: "list_all (\<lambda>c. c < 256) (lower ucd_lower s)"
    unfolding eq by (auto simp: list_all_iff table_lower_latin1(1))
  from assms show "list_all (\<lambda>c. \<not> is_uppercase ucd_isupper c) (lower ucd_lower s)"
    unfolding eq
    by (auto simp: list_all_iff is_uppercase_def tabulated_def table_lower_latin1(1,2))
  from small have "list_all tabulated (map table_lower s)"
    unfolding eq by (auto simp: list_all_iff tabulated_def)
  with assms show "lower ucd_lower (lower ucd_lower s) = lower ucd_lower s"
    unfolding eq by (auto simp: lower_def list_all_iff table_lower_latin1(3))
qed

lemma lemmatize_pipe_append:
  "lemmatize_pipe ucd_lower sw (xs @ ys) =
     lemmatize_pipe ucd_lower sw xs @ lemmatize_pipe ucd_lower sw ys"
  by (simp add: lemmatize_pipe_def)

lemma lemmatize_pipe_Cons:
  "lemmatize_pipe ucd_lower sw (tok # doc) =
     (if is_alpha tok \<and> lower ucd_lower (tok_text tok) \<notin> sw
      then [lower ucd_lower (tok_lemma tok)] else [])
       @ lemmatize_pipe ucd_lower sw doc"
  by (simp add: lemmatize_pipe_def)

lemma lemmatize_pipe_origin:
  "l \<in> set (lemmatize_pipe ucd_lower sw doc) \<Longrightarrow>
     \<exists>tok \<in> set doc. is_alpha tok \<and> lower ucd_lower (tok_text tok) \<notin> sw
        \<and> l = lower ucd_lower (tok_lemma tok)"
  by (auto simp: lemmatize_pipe_def)

lemma chunker_subset:
  assumes "chunker xs T K = Inr chunks"
  shows "set (concat chunks) \<subseteq> set xs"
proof -
  have "x \<in> set xs" if "x \<in> set (py_slice xs a b)" for x a b
    using that unfolding py_slice_def Let_def
    by (meson in_set_takeD in_set_dropD)
  with assms show ?thesis
    by (auto simp: chunker_def split: sum.splits)
qed

subsection \<open>The scan of the pattern\<close>

lemma in_class_chars:
  "in_class c =
     (c \<in> set (py_str ''ABCDEFGHIJKLMNOPQRSTUVWXYZabcdefghijklmnopqrstuvwxyz0123456789-''))"
  unfolding in_class_def py_str_def by simp arith

lemma match_at_Some:
  assumes "match_at s = Some m"
  shows "matches_pattern m" and "s = m @ drop (length m) s"
proof -
  from assms have m: "m = takeWhile in_class (take 50 s)" and l: "3 \<le> length m"
    by (auto simp: match_at_def Let_def split: if_splits)
  have "length m \<le> length (take 50 s)" unfolding m by (rule length_takeWhile_le)
  then have "length m \<le> 50" by simp
  moreover have "\<forall>c \<in> set m. in_class c" unfolding m by (auto dest: set_takeWhileD)
  ultimately show "matches_pattern m" using l by (simp add: matches_pattern_def)
  have "prefix m (take 50 s)" unfolding m by (metis prefix_def takeWhile_dropWhile_id)
  then have "prefix m s" using take_is_prefix prefix_order.trans by blast
  then show "s = m @ drop (length m) s" by (auto simp: prefix_def)
qed

lemma match_at_None:
  assumes "match_at s = None" and "prefix u s" and "\<forall>c \<in> set u. in_class c"
  shows "length u < 3"
proof (rule ccontr)
  assume "\<not> length u < 3"
  then have l: "3 \<le> length u" by simp
  define v where "v = take 3 u"
  have v: "length v = 3" "\<forall>c \<in> set v. in_class c" "prefix v s"
    using l assms(2,3) by (auto simp: v_def dest: in_set_takeD intro: prefix_order.trans take_is_prefix)
  then obtain w where s: "s = v @ w" by (auto simp: prefix_def)
  have "take 50 s = v @ take 47 w" using v(1) by (simp add: s)
  then have "takeWhile in_class (take 50 s) = v @ takeWhile in_class (take 47 w)"
    using v(2) by (simp add: takeWhile_append2)
  then have "3 \<le> length (takeWhile in_class (take 50 s))" using v(1) by simp
  with assms(1) show False by (simp add: match_at_def Let_def)
qed

lemma findall_Nil: "findall [] = []"
  by (simp add: findall.simps [of "[]"])

lemma findall_tokens: "t \<in> set (findall s) \<Longrightarrow> matches_pattern t"
proof (induction s rule: findall.induct)
  case (1 s)
  show ?case
  proof (cases "s = []")
    case True
    with 1(3) show ?thesis by (simp add: findall_Nil)
  next
    case False
    show ?thesis
    proof (cases "match_at s")
      case None
      with False 1(3) have "t \<in> set (findall (tl s))" by (simp add: findall.simps [of s])
      with 1(1) False None show ?thesis by simp
    next
      case (Some m)
      with False 1(3) have "t = m \<or> t \<in> set (findall (drop (length m) s))"
        by (simp add: findall.simps [of s])
      with 1(2) [OF False Some] match_at_Some(1) [OF Some] show ?thesis by auto
    qed
  qed
qed

lemma findall_sublist: "t \<in> set (findall s) \<Longrightarrow> sublist t s"
proof (induction s rule: findall.induct)
  case (1 s)
  show ?case
  proof (cases "s = []")
    case True
    with "1.prems" show ?thesis by (simp add: findall_Nil)
  next
    case False
    show ?thesis
    proof (cases "match_at s")
      case None
      with False "1.prems" have "t \<in> set (findall (tl s))" by (simp add: findall.simps [of s])
      with "1.IH"(1) False None have "sublist t (tl s)" by simp
      with False show ?thesis by (cases s) (simp_all add: sublist_Cons_right)
    next
      case (Some m)
      with False "1.prems" have "t = m \<or> t \<in> set (findall (drop (length m) s))"
        by (simp add: findall.simps [of s])
      then show ?thesis
      proof
        assume "t = m"
        with match_at_Some(2) [OF Some] have "prefix t s" by (metis prefixI)
        then show ?thesis by (rule prefix_imp_sublist)
      next
        assume "t \<in> set (findall (drop (length m) s))"
        with "1.IH"(2) [OF False Some] have "sublist t (drop (length m) s)" by simp
        then show ?thesis using sublist_drop sublist_order.order.trans by blast
      qed
    qed
  qed
qed

lemma findall_splice:
  "\<exists>gaps. length gaps = Suc (length (findall s)) \<and> s = concat (splice gaps (findall s))
     \<and> (\<forall>g \<in> set gaps. \<not> has_match g)"
proof (induction s rule: findall.induct)
  case (1 s)
  show ?case
  proof (cases "s = []")
    case True
    have "\<not> has_match []" by (simp add: has_match_def matches_pattern_def)
    then have "length [[]] = Suc (length (findall s)) \<and> s = concat (splice [[]] (findall s))
       \<and> (\<forall>g \<in> set [[]::str]. \<not> has_match g)"
      using True by (simp add: findall_Nil)
    then show ?thesis by blast
  next
    case False
    show ?thesis
    proof (cases "match_at s")
      case None
      then have f: "findall s = findall (tl s)" using False by (simp add: findall.simps [of s])
      from 1(1) [OF False None] obtain gaps where
        g: "length gaps = Suc (length (findall (tl s)))" "tl s = concat (splice gaps (findall (tl s)))"
           "\<forall>g \<in> set gaps. \<not> has_match g" by blast
      from g(1) obtain g0 rest where gaps: "gaps = g0 # rest" by (cases gaps) simp_all
      have pre: "prefix (hd s # g0) s"
      proof -
        have "prefix g0 (tl s)" 
          by (cases "findall (tl s)") (use g(2) gaps in \<open>auto simp: prefix_def\<close>)
        with False show ?thesis by (cases s) simp_all
      qed
      have nm: "\<not> has_match (hd s # g0)"
      proof
        assume "has_match (hd s # g0)"
        then obtain u where u: "sublist u (hd s # g0)" "matches_pattern u" by (auto simp: has_match_def)
        from u(1) have "prefix u (hd s # g0) \<or> sublist u g0" by (simp add: sublist_Cons_right)
        then show False
        proof
          assume "prefix u (hd s # g0)"
          then have "prefix u s" using pre by (rule prefix_order.trans)
          from match_at_None [OF None this] u(2) show False by (simp add: matches_pattern_def)
        next
          assume "sublist u g0"
          with u(2) have "has_match g0" by (auto simp: has_match_def)
          with g(3) gaps show False by simp
        qed
      qed
      let ?gaps = "(hd s # g0) # rest"
      have "length ?gaps = Suc (length (findall s))" using g(1) gaps f by simp
      moreover have "s = concat (splice ?gaps (findall s))"
      proof -
        have "concat (splice ?gaps (findall s)) = hd s # concat (splice gaps (findall (tl s)))"
          unfolding gaps f by (cases "findall (tl s)") simp_all
        with g(2) False show ?thesis by simp
      qed
      moreover have "\<forall>g \<in> set ?gaps. \<not> has_match g" using g(3) gaps nm by simp
      ultimately show ?thesis by blast
    next
      case (Some m)
      then have f: "findall s = m # findall (drop (length m) s)"
        using False by (simp add: findall.simps [of s])
      from 1(2) [OF False Some] obtain gaps where
        g: "length gaps = Suc (length (findall (drop (length m) s)))"
           "drop (length m) s = concat (splice gaps (findall (drop (length m) s)))"
           "\<forall>g \<in> set gaps. \<not> has_match g" by blast
      have e: "\<not> has_match []" by (simp add: has_match_def matches_pattern_def)
      let ?gaps = "[] # gaps"
      have "length ?gaps = Suc (length (findall s))" using g(1) f by simp
      moreover have "s = concat (splice ?gaps (findall s))"
      proof -
        have "concat (splice ?gaps (findall s)) = m @ concat (splice gaps (findall (drop (length m) s)))"
          unfolding f by simp
        with g(2) match_at_Some(2) [OF Some] show ?thesis by simp
      qed
      moreover have "\<forall>g \<in> set ?gaps. \<not> has_match g" using g(3) e by simp
      ultimately show ?thesis by blast
    qed
  qed
qed

lemma cleaner_take:
  "cleaner limit df = (if 0 < limit then take (nat limit) (map add_clean df) else map add_clean df)"
  using py_slice_nonneg [of 0 limit "map add_clean df"]
  by (simp add: cleaner_def Let_def)

section \<open>Properties of the notebook\<close>

text \<open>
  Claim C1, order preservation. For every table \<open>df_preproc\<close> of documents and every chunk
  size \<open>K > 0\<close>, the parallel workflow as the notebook runs it,
  \<^verbatim>\<open>preprocess_parallel(df_preproc['clean'], K)\<close>, does not fail, and the flattened result has
  exactly one lemma list per document: its length is the number of documents, and its
  element \<open>i\<close> is the lemma list computed for document \<open>i\<close>.
\<close>

theorem preprocess_parallel_order:
  assumes "0 < chunksize"
  shows "\<exists>out.
       preprocess_parallel ucd_lower nlp stopwords df_preproc (map clean df_preproc) chunksize
         = Inr out
     \<and> length out = length df_preproc
     \<and> (\<forall>i < length df_preproc.
           out ! i = lemmatize_pipe ucd_lower stopwords (nlp (clean (df_preproc ! i))))"
  by (simp add: preprocess_parallel_same_length [OF assms])

text \<open>
  The two documents of the example with chunks of one document: the hypothesis holds and
  the result is the two lemma lists, in the order of the documents.
\<close>

theorem preprocess_parallel_order_witness:
  "(0::int) < 1
   \<and> preprocess_parallel example_ucd_lower example_nlp example_stopwords example_df_preproc
         (map clean example_df_preproc) 1
       = Inr [[py_str ''cat'', py_str ''sit''],
          [py_str ''dog'', py_str ''run'', py_str ''fast'']]"
proof -
  have h: "(0::int) < 1" by simp
  from preprocess_parallel_order [OF h, where ucd_lower = example_ucd_lower
      and nlp = example_nlp and stopwords = example_stopwords
      and df_preproc = example_df_preproc]
  obtain out where
    run: "preprocess_parallel example_ucd_lower example_nlp example_stopwords example_df_preproc
            (map clean example_df_preproc) 1 = Inr out" and
    len: "length out = length example_df_preproc" and
    nth: "\<forall>i < length example_df_preproc.
            out ! i = lemmatize_pipe example_ucd_lower example_stopwords
                        (example_nlp (clean (example_df_preproc ! i)))"
    by blast
  have l2: "length example_df_preproc = 2" by code_simp
  have e0: "lemmatize_pipe example_ucd_lower example_stopwords
              (example_nlp (clean (example_df_preproc ! 0)))
      = [py_str ''cat'', py_str ''sit'']" by code_simp
  have e1: "lemmatize_pipe example_ucd_lower example_stopwords
              (example_nlp (clean (example_df_preproc ! 1)))
      = [py_str ''dog'', py_str ''run'', py_str ''fast'']" by code_simp
  have "out = [out ! 0, out ! 1]"
    using len l2 by (intro nth_equalityI) (auto simp: less_Suc_eq numeral_2_eq_2)
  also have "\<dots> = [[py_str ''cat'', py_str ''sit''], [py_str ''dog'', py_str ''run'', py_str ''fast'']]"
    using nth l2 e0 e1 by simp
  finally show ?thesis using run h by simp
qed

text \<open>
  Claim C2, chunking. For every sequence \<open>xs\<close> of N items and every chunk size \<open>K > 0\<close>,
  \<^verbatim>\<open>chunker(xs, N, K)\<close> does not fail and yields exactly \<open>ceil(N/K)\<close> chunks; chunk \<open>i\<close>
  is the slice of \<open>K\<close> items starting at \<open>i * K\<close> (contiguous, non-overlapping, in order);
  the chunks concatenate to \<open>xs\<close>; every chunk is non-empty and has at most \<open>K\<close> items,
  and every chunk but the last has exactly \<open>K\<close>. An empty sequence yields no chunk; a
  non-empty sequence with \<open>K \<ge> N\<close> yields the single chunk \<open>xs\<close>; and \<open>K = 1\<close> yields the
  N singleton chunks.
\<close>

theorem chunker_partition:
  assumes "0 < K"
  shows "\<exists>chunks. chunker xs (int (length xs)) K = Inr chunks
     \<and> int (length chunks) = \<lceil>real (length xs) / real_of_int K\<rceil>
     \<and> concat chunks = xs
     \<and> (\<forall>i < length chunks. chunks ! i = take (nat K) (drop (i * nat K) xs))
     \<and> (\<forall>c \<in> set chunks. c \<noteq> [] \<and> int (length c) \<le> K)
     \<and> (\<forall>i. Suc i < length chunks \<longrightarrow> int (length (chunks ! i)) = K)
     \<and> (xs = [] \<longrightarrow> chunks = [])
     \<and> (xs \<noteq> [] \<and> int (length xs) \<le> K \<longrightarrow> chunks = [xs])
     \<and> (K = 1 \<longrightarrow> chunks = map (\<lambda>x. [x]) xs)"
proof -
  define k where "k = nat K"
  define n where "n = nat ((int (length xs) + K - 1) div K)"
  define chunks where "chunks = map (\<lambda>i. take k (drop (i * k) xs)) [0..<n]"
  have k: "0 < k" "int k = K" using assms by (simp_all add: k_def)
  have cover: "length xs \<le> n * k" and last: "0 < n \<Longrightarrow> (n - 1) * k < length xs"
    and n_int: "int n = (int (length xs) + K - 1) div K"
    using chunk_count_bounds [OF assms, of "length xs"] by (simp_all add: n_def k_def)
  have len: "length chunks = n" by (simp add: chunks_def)
  have nth: "chunks ! i = take k (drop (i * k) xs)" if "i < n" for i
    using that by (simp add: chunks_def)
  have run: "chunker xs (int (length xs)) K = Inr chunks"
    using chunker_pos [OF assms] by (simp add: chunks_def n_def k_def)
  have count: "int (length chunks) = \<lceil>real (length xs) / real_of_int K\<rceil>"
    using chunk_count_ceiling [OF assms, of "length xs"] n_int len by simp
  have whole: "concat chunks = xs"
    using cover by (simp add: chunks_def concat_chunks)
  have slices: "\<forall>i < length chunks. chunks ! i = take (nat K) (drop (i * nat K) xs)"
    using nth len by (simp add: k_def)
  have sizes: "\<forall>c \<in> set chunks. c \<noteq> [] \<and> int (length c) \<le> K"
  proof
    fix c assume "c \<in> set chunks"
    then obtain i where i: "i < n" and c: "c = take k (drop (i * k) xs)"
      by (auto simp: chunks_def)
    from i have "0 < n" by simp
    from chunk_lengths(1,2) [OF k(1) i last [OF this]] c k(2)
    show "c \<noteq> [] \<and> int (length c) \<le> K" by simp
  qed
  have full: "\<forall>i. Suc i < length chunks \<longrightarrow> int (length (chunks ! i)) = K"
  proof (intro allI impI)
    fix i assume "Suc i < length chunks"
    then have i: "Suc i < n" "i < n" "0 < n" using len by simp_all
    from chunk_lengths(3) [OF k(1) i(2) last [OF i(3)] i(1)] nth [OF i(2)] k(2)
    show "int (length (chunks ! i)) = K" by simp
  qed
  have none: "xs = [] \<longrightarrow> chunks = []"
  proof
    assume "xs = []"
    with last have "\<not> 0 < n" by fastforce
    then show "chunks = []" by (simp add: chunks_def)
  qed
  have one: "xs \<noteq> [] \<and> int (length xs) \<le> K \<longrightarrow> chunks = [xs]"
  proof
    assume a: "xs \<noteq> [] \<and> int (length xs) \<le> K"
    then have le: "length xs \<le> k" using k(2) by linarith
    from a cover have "0 < n" by (cases n) simp_all
    have "n = 1"
    proof (rule ccontr)
      assume "n \<noteq> 1"
      with \<open>0 < n\<close> have "2 \<le> n" by simp
      then have "1 \<le> n - 1" by linarith
      then have "1 * k \<le> (n - 1) * k" by (rule mult_le_mono1)
      with last [OF \<open>0 < n\<close>] have "1 * k < length xs" by linarith
      with le show False by simp
    qed
    with le show "chunks = [xs]" by (simp add: chunks_def)
  qed
  have each: "K = 1 \<longrightarrow> chunks = map (\<lambda>x. [x]) xs"
  proof
    assume "K = 1"
    then have "k = 1" "n = length xs" by (simp_all add: k_def n_def)
    then show "chunks = map (\<lambda>x. [x]) xs"
      using singleton_chunks [of xs] by (simp add: chunks_def)
  qed
  from run count whole slices sizes full none one each show ?thesis by blast
qed

text \<open>
  The hypothesis holds and the conclusion is as expected at five items in chunks of two,
  at three items in one chunk of four, and at chunks of one.
\<close>

theorem chunker_partition_witness:
  "(0::int) < 2 \<and> (0::int) < 4 \<and> (0::int) < 1
   \<and> chunker ''abcde'' (int (length ''abcde'')) 2 = Inr [''ab'', ''cd'', ''e'']
   \<and> chunker ''abc'' (int (length ''abc'')) 4 = Inr [''abc'']
   \<and> chunker ''abc'' (int (length ''abc'')) 1 = Inr [''a'', ''b'', ''c'']"
proof -
  have h2: "(0::int) < 2" and h4: "(0::int) < 4" and h1: "(0::int) < 1" by simp_all
  from chunker_partition [OF h2, of "''abcde''"] obtain chunks where
    run: "chunker ''abcde'' (int (length ''abcde'')) 2 = Inr chunks" and
    count: "int (length chunks) = \<lceil>real (length ''abcde'') / real_of_int 2\<rceil>" and
    slices: "\<forall>i < length chunks. chunks ! i = take (nat 2) (drop (i * nat 2) ''abcde'')"
    by blast
  have "\<lceil>real (length ''abcde'') / real_of_int 2\<rceil> = 3" by (simp add: ceiling_eq_iff)
  with count have len: "length chunks = 3" by simp
  have "chunks = [chunks ! 0, chunks ! 1, chunks ! 2]"
    using len by (intro nth_equalityI) (auto simp: less_Suc_eq numeral_3_eq_3 numeral_2_eq_2)
  also have "\<dots> = [''ab'', ''cd'', ''e'']"
    using slices len by simp
  finally have a: "chunker ''abcde'' (int (length ''abcde'')) 2 = Inr [''ab'', ''cd'', ''e'']"
    using run by simp
  from chunker_partition [OF h4, of "''abc''"]
  have b: "chunker ''abc'' (int (length ''abc'')) 4 = Inr [''abc'']" by auto
  from chunker_partition [OF h1, of "''abc''"]
  have c: "chunker ''abc'' (int (length ''abc'')) 1 = Inr [''a'', ''b'', ''c'']" by auto
  from h2 h4 h1 a b c show ?thesis by blast
qed

text \<open>
  The sentence of the claim that \<open>K \<ge> N\<close> always produces exactly one chunk fails for
  the empty sequence: with \<open>N = 0\<close> and \<open>K = 1\<close> the range is empty and no chunk is produced.
\<close>

theorem chunker_empty_counterexample:
  "(int (length ([] :: string)) \<le> 1)
   \<and> chunker ([] :: string) (int (length ([] :: string))) 1 = Inr []
   \<and> length ([] :: string list) \<noteq> 1"
  by (simp add: chunker_def py_range_def range_values.simps [of 0])

text \<open>
  Claim C3, the parallel workflow refines the sequential ones. For every table of
  documents, every chunk size \<open>K > 0\<close> and every number of workers, dispatching the chunks
  of the clean texts and flattening the results gives the list obtained by applying
  \<^verbatim>\<open>lemmatize\<close> to each text in turn (workflow 1); \<^verbatim>\<open>preprocess_parallel\<close> (with its 7
  workers) returns this list, and so does \<^verbatim>\<open>preprocess_pipe\<close> (workflow 2). The list does
  not depend on \<open>K\<close> or on the number of workers.
\<close>

theorem parallel_equals_sequential:
  assumes "0 < chunksize"
  shows "\<exists>chunks. chunker (map clean df_preproc) (int (length df_preproc)) chunksize = Inr chunks
     \<and> (\<forall>n_jobs. flatten (Parallel n_jobs (process_chunk ucd_lower nlp stopwords) chunks) =
            map (lemmatize ucd_lower nlp stopwords) (map clean df_preproc))
     \<and> preprocess_parallel ucd_lower nlp stopwords df_preproc (map clean df_preproc) chunksize =
            Inr (map (lemmatize ucd_lower nlp stopwords) (map clean df_preproc))
     \<and> preprocess_pipe ucd_lower nlp stopwords (map clean df_preproc) =
            map (lemmatize ucd_lower nlp stopwords) (map clean df_preproc)"
proof -
  let ?texts = "map clean df_preproc"
  obtain chunks where run: "chunker ?texts (int (length df_preproc)) chunksize = Inr chunks"
    and cat: "concat chunks =
      take (nat ((int (length df_preproc) + chunksize - 1) div chunksize) * nat chunksize) ?texts"
    using chunker_concat [OF assms] by blast
  from cat chunk_count_bounds(1) [OF assms, of "length df_preproc"]
  have whole: "concat chunks = ?texts" by simp
  show ?thesis
    using run whole
    by (simp add: dispatch_flatten lemmatize_eq_pipe preprocess_pipe_map
        preprocess_parallel_same_length [OF assms])
qed

text \<open>
  The example with chunks of one document and with one chunk of two: the same lemma
  lists, which are those of the sequential workflow.
\<close>

theorem parallel_equals_sequential_witness:
  "(0::int) < 1 \<and> (0::int) < 2
   \<and> preprocess_parallel example_ucd_lower example_nlp example_stopwords example_df_preproc
         (map clean example_df_preproc) 1
       = Inr [[py_str ''cat'', py_str ''sit''],
          [py_str ''dog'', py_str ''run'', py_str ''fast'']]
   \<and> preprocess_parallel example_ucd_lower example_nlp example_stopwords example_df_preproc
         (map clean example_df_preproc) 2
       = Inr [[py_str ''cat'', py_str ''sit''],
          [py_str ''dog'', py_str ''run'', py_str ''fast'']]
   \<and> preprocess_pipe example_ucd_lower example_nlp example_stopwords (map clean example_df_preproc)
       = [[py_str ''cat'', py_str ''sit''], [py_str ''dog'', py_str ''run'', py_str ''fast'']]"
proof -
  have h1: "(0::int) < 1" and h2: "(0::int) < 2" by simp_all
  have seq: "map (lemmatize example_ucd_lower example_nlp example_stopwords) (map clean example_df_preproc)
      = [[py_str ''cat'', py_str ''sit''], [py_str ''dog'', py_str ''run'', py_str ''fast'']]"
    by code_simp
  from parallel_equals_sequential [OF h1, where ucd_lower = example_ucd_lower
      and nlp = example_nlp and stopwords = example_stopwords
      and df_preproc = example_df_preproc]
  have a: "preprocess_parallel example_ucd_lower example_nlp example_stopwords example_df_preproc
         (map clean example_df_preproc) 1 =
         Inr (map (lemmatize example_ucd_lower example_nlp example_stopwords) (map clean example_df_preproc))"
    and c: "preprocess_pipe example_ucd_lower example_nlp example_stopwords (map clean example_df_preproc) =
         map (lemmatize example_ucd_lower example_nlp example_stopwords) (map clean example_df_preproc)"
    by blast+
  from parallel_equals_sequential [OF h2, where ucd_lower = example_ucd_lower
      and nlp = example_nlp and stopwords = example_stopwords
      and df_preproc = example_df_preproc]
  have b: "preprocess_parallel example_ucd_lower example_nlp example_stopwords example_df_preproc
         (map clean example_df_preproc) 2 =
         Inr (map (lemmatize example_ucd_lower example_nlp example_stopwords) (map clean example_df_preproc))"
    by blast
  from a b c h1 h2 show ?thesis unfolding seq by simp
qed

text \<open>
  Claim C4, the stopword filter. In \<^verbatim>\<open>lemmatize_pipe\<close> (and \<^verbatim>\<open>lemmatize\<close>, which is the same
  comprehension on \<^verbatim>\<open>nlp(text)\<close>), a token of the document contributes one entry, its
  lowercased lemma, exactly when it is alphabetic and its lowercased text is not in the
  stopword set, and contributes nothing otherwise; so the output has as many entries as
  there are such tokens. In particular, when every stopword is lowercase, a token whose
  text equals a stopword up to case is excluded, and a non-alphabetic token is excluded
  whatever the stopword set.
\<close>

theorem stopword_filter:
  "lemmatize_pipe ucd_lower stopwords (pre @ tok # post) =
       lemmatize_pipe ucd_lower stopwords pre
     @ (if is_alpha tok \<and> lower ucd_lower (tok_text tok) \<notin> stopwords
        then [lower ucd_lower (tok_lemma tok)] else [])
     @ lemmatize_pipe ucd_lower stopwords post
   \<and> length (lemmatize_pipe ucd_lower stopwords doc) =
       length (filter (\<lambda>tok. is_alpha tok \<and> lower ucd_lower (tok_text tok) \<notin> stopwords) doc)
   \<and> ((\<forall>w \<in> stopwords. lower ucd_lower w = w) \<and> w \<in> stopwords
        \<and> lower ucd_lower (tok_text tok) = lower ucd_lower w \<longrightarrow>
        lemmatize_pipe ucd_lower stopwords (pre @ tok # post) =
          lemmatize_pipe ucd_lower stopwords pre @ lemmatize_pipe ucd_lower stopwords post)
   \<and> (\<not> is_alpha tok \<longrightarrow>
        lemmatize_pipe ucd_lower stopwords (pre @ tok # post) =
          lemmatize_pipe ucd_lower stopwords pre @ lemmatize_pipe ucd_lower stopwords post)
   \<and> lemmatize ucd_lower nlp stopwords text = lemmatize_pipe ucd_lower stopwords (nlp text)"
proof -
  have a: "lemmatize_pipe ucd_lower stopwords (pre @ tok # post) =
       lemmatize_pipe ucd_lower stopwords pre
     @ (if is_alpha tok \<and> lower ucd_lower (tok_text tok) \<notin> stopwords
        then [lower ucd_lower (tok_lemma tok)] else [])
     @ lemmatize_pipe ucd_lower stopwords post"
    by (simp only: lemmatize_pipe_append lemmatize_pipe_Cons)
  have b: "length (lemmatize_pipe ucd_lower stopwords doc) =
       length (filter (\<lambda>tok. is_alpha tok \<and> lower ucd_lower (tok_text tok) \<notin> stopwords) doc)"
    by (induction doc) (simp_all add: lemmatize_pipe_def)
  have c: "(\<forall>w \<in> stopwords. lower ucd_lower w = w) \<and> w \<in> stopwords
        \<and> lower ucd_lower (tok_text tok) = lower ucd_lower w \<longrightarrow>
        lemmatize_pipe ucd_lower stopwords (pre @ tok # post) =
          lemmatize_pipe ucd_lower stopwords pre @ lemmatize_pipe ucd_lower stopwords post"
    by (auto simp: a)
  have d: "\<not> is_alpha tok \<longrightarrow>
        lemmatize_pipe ucd_lower stopwords (pre @ tok # post) =
          lemmatize_pipe ucd_lower stopwords pre @ lemmatize_pipe ucd_lower stopwords post"
    by (simp add: a)
  from a b c d lemmatize_eq_pipe show ?thesis by blast
qed

text \<open>
  With the stopword "the": the token "The" is dropped, and so is the non-alphabetic
  token "42".
\<close>

theorem stopword_filter_witness:
  "lower example_ucd_lower (py_str ''the'') = py_str ''the''
   \<and> py_str ''the'' \<in> example_stopwords
   \<and> lower example_ucd_lower (py_str ''The'') = lower example_ucd_lower (py_str ''the'')
   \<and> lemmatize_pipe example_ucd_lower example_stopwords
        ([] @ \<lparr>tok_text = py_str ''The'', tok_lemma = py_str ''the'', is_alpha = True\<rparr>
            # [\<lparr>tok_text = py_str ''cat'', tok_lemma = py_str ''cat'', is_alpha = True\<rparr>])
       = [py_str ''cat'']
   \<and> \<not> is_alpha \<lparr>tok_text = py_str ''42'', tok_lemma = py_str ''42'', is_alpha = False\<rparr>
   \<and> lemmatize_pipe example_ucd_lower example_stopwords
        ([] @ \<lparr>tok_text = py_str ''42'', tok_lemma = py_str ''42'', is_alpha = False\<rparr>
            # [\<lparr>tok_text = py_str ''cat'', tok_lemma = py_str ''cat'', is_alpha = True\<rparr>])
       = [py_str ''cat'']"
proof -
  let ?the = "\<lparr>tok_text = py_str ''The'', tok_lemma = py_str ''the'', is_alpha = True\<rparr>"
  let ?num = "\<lparr>tok_text = py_str ''42'', tok_lemma = py_str ''42'', is_alpha = False\<rparr>"
  let ?cat = "\<lparr>tok_text = py_str ''cat'', tok_lemma = py_str ''cat'', is_alpha = True\<rparr>"
  have low: "lower example_ucd_lower (py_str ''the'') = py_str ''the''"
    and eq: "lower example_ucd_lower (py_str ''The'') = lower example_ucd_lower (py_str ''the'')"
    by code_simp+
  have mem: "py_str ''the'' \<in> example_stopwords" by (simp add: example_stopwords_def)
  have all: "\<forall>w \<in> example_stopwords. lower example_ucd_lower w = w"
    using low by (simp add: example_stopwords_def)
  have cat: "lemmatize_pipe example_ucd_lower example_stopwords []
      @ lemmatize_pipe example_ucd_lower example_stopwords [?cat] = [py_str ''cat'']"
    by code_simp
  from stopword_filter [where ucd_lower = example_ucd_lower and stopwords = example_stopwords
      and pre = "[]" and tok = ?the and post = "[?cat]" and w = "py_str ''the''"] all mem eq
  have a: "lemmatize_pipe example_ucd_lower example_stopwords ([] @ ?the # [?cat]) =
      lemmatize_pipe example_ucd_lower example_stopwords []
        @ lemmatize_pipe example_ucd_lower example_stopwords [?cat]"
    by simp
  from stopword_filter [where ucd_lower = example_ucd_lower and stopwords = example_stopwords
      and pre = "[]" and tok = ?num and post = "[?cat]"]
  have b: "lemmatize_pipe example_ucd_lower example_stopwords ([] @ ?num # [?cat]) =
      lemmatize_pipe example_ucd_lower example_stopwords []
        @ lemmatize_pipe example_ucd_lower example_stopwords [?cat]"
    by simp
  from a b cat low mem eq show ?thesis by simp
qed

text \<open>
  Claim C5, the clean text. For every row of the table returned by the cleaner, the
  column \<^verbatim>\<open>clean\<close> is the matches of the pattern in the content of the row, as \<^verbatim>\<open>findall\<close>
  returns them, joined by single spaces. Every match has between 3 and 50 characters, all
  of them ASCII letters, digits or hyphens, and is a substring of the content; the
  matches occur in the content in the order of the list, without overlap, and the
  stretches of the content between them contain no match.
\<close>

theorem cleaner_clean_text:
  "\<forall>i < length (cleaner limit df).
      clean (cleaner limit df ! i) = join (py_str '' '') (findall (content (df ! i)))
    \<and> (\<forall>t \<in> set (findall (content (df ! i))).
          3 \<le> length t \<and> length t \<le> 50
        \<and> (\<forall>c \<in> set t. c \<in> set (py_str
              ''ABCDEFGHIJKLMNOPQRSTUVWXYZabcdefghijklmnopqrstuvwxyz0123456789-''))
        \<and> sublist t (content (df ! i)))
    \<and> (\<exists>gaps. length gaps = Suc (length (findall (content (df ! i))))
          \<and> content (df ! i) = concat (splice gaps (findall (content (df ! i))))
          \<and> (\<forall>g \<in> set gaps. \<not> has_match g))"
proof (intro allI impI conjI)
  fix i assume "i < length (cleaner limit df)"
  then show "clean (cleaner limit df ! i) = join (py_str '' '') (findall (content (df ! i)))"
    by (simp add: cleaner_take add_clean_def split: if_splits)
next
  fix i
  show "\<forall>t \<in> set (findall (content (df ! i))).
          3 \<le> length t \<and> length t \<le> 50
        \<and> (\<forall>c \<in> set t. c \<in> set (py_str
              ''ABCDEFGHIJKLMNOPQRSTUVWXYZabcdefghijklmnopqrstuvwxyz0123456789-''))
        \<and> sublist t (content (df ! i))"
    using findall_tokens findall_sublist
    unfolding matches_pattern_def in_class_chars by blast
next
  fix i
  show "\<exists>gaps. length gaps = Suc (length (findall (content (df ! i))))
          \<and> content (df ! i) = concat (splice gaps (findall (content (df ! i))))
          \<and> (\<forall>g \<in> set gaps. \<not> has_match g)"
    by (rule findall_splice)
qed

text \<open>
  The first row of the example: the markup and the punctuation are dropped.
\<close>

theorem cleaner_clean_text_witness:
  "0 < length (cleaner 0 example_df)
   \<and> content (example_df ! 0) = py_str ''<p>The cat sat!</p>''
   \<and> findall (content (example_df ! 0)) = [py_str ''The'', py_str ''cat'', py_str ''sat'']
   \<and> clean (cleaner 0 example_df ! 0) = py_str ''The cat sat''"
proof -
  have h: "0 < length (cleaner 0 example_df)" by code_simp
  have c: "content (example_df ! 0) = py_str ''<p>The cat sat!</p>''" by code_simp
  have f: "findall (content (example_df ! 0)) = [py_str ''The'', py_str ''cat'', py_str ''sat'']"
    by code_simp
  have j: "join (py_str '' '') [py_str ''The'', py_str ''cat'', py_str ''sat'']
      = py_str ''The cat sat''" by code_simp
  from cleaner_clean_text [of 0 example_df] h
  have "clean (cleaner 0 example_df ! 0)
      = join (py_str '' '') (findall (content (example_df ! 0)))"
    by blast
  also have "\<dots> = py_str ''The cat sat''" unfolding f j by (rule refl)
  finally show ?thesis using h c f by simp
qed

text \<open>
  Claim C6, errors of the chunker, as amended. The chunker fails exactly when the chunk
  size is zero (the zero step of \<^verbatim>\<open>range\<close>), whatever the sequence and the total length: for
  every non-zero chunk size it returns its chunks. A negative chunk size is not an
  error: with a total length that is not negative the range is empty and there is no
  chunk. \<^verbatim>\<open>preprocess_parallel\<close> likewise fails exactly on a zero chunk size, and returns
  the empty list on a negative one.
\<close>

theorem chunker_fails_on_zero_only:
  "(chunker xs T K = Inl ValueError) = (K = 0)
   \<and> (K \<noteq> 0 \<longrightarrow> (\<exists>chunks. chunker xs T K = Inr chunks))
   \<and> (K < 0 \<and> 0 \<le> T \<longrightarrow> chunker xs T K = Inr [])
   \<and> (preprocess_parallel ucd_lower nlp stopwords df_preproc texts K = Inl ValueError) = (K = 0)
   \<and> (K < 0 \<longrightarrow> preprocess_parallel ucd_lower nlp stopwords df_preproc texts K = Inr [])"
  by (auto simp: chunker_def py_range_def preprocess_parallel_def range_values_neg Parallel_def)

text \<open>
  A zero, a positive and a negative chunk size on three items.
\<close>

theorem chunker_fails_on_zero_only_witness:
  "chunker ''abc'' 3 0 = Inl ValueError
   \<and> (2::int) \<noteq> 0 \<and> chunker ''abc'' 3 2 = Inr [''ab'', ''c'']
   \<and> (-2::int) < 0 \<and> (0::int) \<le> 3 \<and> chunker ''abc'' 3 (-2) = Inr []"
proof -
  have a: "chunker ''abc'' 3 0 = Inl ValueError"
    using chunker_fails_on_zero_only [of "''abc''" 3 0] by simp
  have b: "chunker ''abc'' 3 (-2) = Inr []"
    using chunker_fails_on_zero_only [of "''abc''" 3 "-2"] by simp
  have c: "chunker ''abc'' 3 2 = Inr [''ab'', ''c'']" by code_simp
  from a b c show ?thesis by simp
qed

text \<open>
  The claim that every chunk size \<open>K \<le> 0\<close> fails is false at \<open>K = -1\<close>: the chunker returns
  normally, with no chunk.
\<close>

theorem chunker_negative_counterexample:
  "(-1::int) \<le> 0 \<and> chunker ''abc'' (int (length ''abc'')) (-1) = Inr []"
  by (simp add: chunker_def py_range_def range_values_neg)

text \<open>
  Claim C7, the row limit. With limit 0 the cleaner returns all N rows (each with its
  clean text added); with a limit \<open>L > 0\<close> it returns exactly the first \<open>min(L, N)\<close> of
  these rows, in order.
\<close>

theorem cleaner_limit:
  "cleaner 0 df = map add_clean df \<and> length (cleaner 0 df) = length df
   \<and> (0 < L \<longrightarrow> cleaner L df = take (min (nat L) (length df)) (cleaner 0 df)
                \<and> length (cleaner L df) = min (nat L) (length df))"
  by (auto simp: cleaner_take min_def)

text \<open>
  The example table of two rows with limit 1.
\<close>

theorem cleaner_limit_witness:
  "(0::int) < 1 \<and> length (cleaner 0 example_df) = 2
   \<and> cleaner 1 example_df = take 1 (cleaner 0 example_df)
   \<and> length (cleaner 1 example_df) = 1"
proof -
  have h: "(0::int) < 1" by simp
  have l: "length example_df = 2" by code_simp
  from cleaner_limit [of example_df 1] h l show ?thesis by simp
qed

text \<open>
  Claim C8, the total length given to the chunker, as amended. For \<open>K > 0\<close> the chunker
  takes its start positions from \<^verbatim>\<open>range(0, total_length, K)\<close> alone: it yields
  \<open>n = ceil(total_length / K)\<close> chunks (none when the total length is not positive), chunk
  \<open>i\<close> being the slice of \<open>K\<close> items at \<open>i * K\<close>, which is empty exactly when the sequence
  has no item at \<open>i * K\<close>; the chunks concatenate to the first \<open>n * K\<close> items of the
  sequence. \<^verbatim>\<open>preprocess_parallel\<close> passes \<^verbatim>\<open>len(df_preproc)\<close>, so it returns the lemma lists
  of the first \<open>n * K\<close> texts, with \<open>n = ceil(len(df_preproc) / K)\<close>: one per input text
  exactly when there are at most \<open>n * K\<close> texts, in particular when there are as many
  texts as rows of \<^verbatim>\<open>df_preproc\<close>; the texts from \<open>n * K\<close> on are dropped.
\<close>

theorem chunker_follows_total_length:
  assumes "0 < K"
  shows "\<exists>chunks out.
       chunker xs T K = Inr chunks
     \<and> length chunks = nat \<lceil>real_of_int T / real_of_int K\<rceil>
     \<and> (\<forall>i < length chunks. chunks ! i = take (nat K) (drop (i * nat K) xs))
     \<and> (\<forall>i < length chunks. (chunks ! i = []) = (length xs \<le> i * nat K))
     \<and> concat chunks = take (length chunks * nat K) xs
     \<and> preprocess_parallel ucd_lower nlp stopwords df_preproc texts K = Inr out
     \<and> out = map (\<lambda>t. lemmatize_pipe ucd_lower stopwords (nlp t))
               (take (nat \<lceil>real (length df_preproc) / real_of_int K\<rceil> * nat K) texts)
     \<and> (length out = length texts) =
         (length texts \<le> nat \<lceil>real (length df_preproc) / real_of_int K\<rceil> * nat K)
     \<and> (length texts = length df_preproc \<longrightarrow> length out = length texts)"
proof -
  define n where "n = nat \<lceil>real_of_int T / real_of_int K\<rceil>"
  define m where "m = nat \<lceil>real (length df_preproc) / real_of_int K\<rceil>"
  define chunks where "chunks = map (\<lambda>i. take (nat K) (drop (i * nat K) xs)) [0..<n]"
  define out where
    "out = map (\<lambda>t. lemmatize_pipe ucd_lower stopwords (nlp t)) (take (m * nat K) texts)"
  have k: "0 < nat K" using assms by simp
  have n: "nat ((T + K - 1) div K) = n"
    by (simp add: n_def ceil_div_ceiling [OF assms])
  have m: "nat ((int (length df_preproc) + K - 1) div K) = m"
    using ceil_div_ceiling [OF assms, of "int (length df_preproc)"] by (simp add: m_def)
  have run: "chunker xs T K = Inr chunks"
    by (simp add: chunker_pos [OF assms] n chunks_def)
  have len: "length chunks = n" by (simp add: chunks_def)
  have nth: "\<forall>i < length chunks. chunks ! i = take (nat K) (drop (i * nat K) xs)"
    by (simp add: chunks_def)
  have empty: "\<forall>i < length chunks. (chunks ! i = []) = (length xs \<le> i * nat K)"
    using k by (simp add: chunks_def)
  have cat: "concat chunks = take (length chunks * nat K) xs"
    by (simp add: chunks_def concat_chunks)
  have par: "preprocess_parallel ucd_lower nlp stopwords df_preproc texts K = Inr out"
    by (simp add: preprocess_parallel_pos [OF assms] m out_def)
  have len_out: "(length out = length texts) = (length texts \<le> m * nat K)"
    by (auto simp: out_def)
  have same: "length texts = length df_preproc \<longrightarrow> length out = length texts"
    using chunk_count_bounds(1) [OF assms, of "length df_preproc"] m len_out by auto
  from run len nth empty cat par len_out same show ?thesis
    unfolding n_def [symmetric] m_def [symmetric] out_def [symmetric] by blast
qed

text \<open>
  Seven items with total length 3 (the items from the fourth on are dropped), three
  items with total length 7 (two empty chunks), and two texts with a table of one row
  (the second text is dropped).
\<close>

theorem chunker_follows_total_length_witness:
  "(0::int) < 2
   \<and> chunker ''abcdefg'' 3 2 = Inr [''ab'', ''cd'']
   \<and> chunker ''abc'' 7 2 = Inr [''ab'', ''c'', [], []]
   \<and> preprocess_parallel example_ucd_lower example_nlp example_stopwords (take 1 example_df_preproc)
        (map clean example_df_preproc) 1 = Inr [[py_str ''cat'', py_str ''sit'']]"
proof -
  have h: "(0::int) < 2" and h1: "(0::int) < 1" by simp_all
  from chunker_follows_total_length [OF h1, where df_preproc = "take 1 example_df_preproc"
      and texts = "map clean example_df_preproc" and nlp = example_nlp
      and ucd_lower = example_ucd_lower
      and stopwords = example_stopwords and xs = "''abc''" and T = 1]
  obtain out where
    run: "preprocess_parallel example_ucd_lower example_nlp example_stopwords (take 1 example_df_preproc)
        (map clean example_df_preproc) 1 = Inr out" and
    out: "out = map (\<lambda>t. lemmatize_pipe example_ucd_lower example_stopwords (example_nlp t))
               (take (nat \<lceil>real (length (take 1 example_df_preproc)) / real_of_int 1\<rceil> * nat 1)
                  (map clean example_df_preproc))"
    by blast
  have "length (take 1 example_df_preproc) = 1" by code_simp
  then have "out = map (\<lambda>t. lemmatize_pipe example_ucd_lower example_stopwords (example_nlp t))
               (take 1 (map clean example_df_preproc))"
    using out by simp
  also have "\<dots> = [[py_str ''cat'', py_str ''sit'']]" by code_simp
  finally have p: "preprocess_parallel example_ucd_lower example_nlp example_stopwords (take 1 example_df_preproc)
        (map clean example_df_preproc) 1 = Inr [[py_str ''cat'', py_str ''sit'']]"
    using run by simp
  have a: "chunker ''abcdefg'' 3 2 = Inr [''ab'', ''cd'']" by code_simp
  have b: "chunker ''abc'' 7 2 = Inr [''ab'', ''c'', [], []]" by code_simp
  from h a b p show ?thesis by simp
qed

text \<open>
  The claim fails where the total length is not a multiple of the chunk size. With four
  items, total length 3 and chunks of two, nothing is dropped although the total length
  is smaller; with three items and total length 4 no empty chunk is produced although
  it is larger; and with two texts, a table of one row and chunks of two, there is one
  lemma list per text although the lengths differ.
\<close>

theorem chunker_total_length_counterexample:
  "(3::int) < int (length ''abcd'')
   \<and> chunker ''abcd'' 3 2 = Inr [''ab'', ''cd'']
   \<and> concat [''ab'', ''cd''] = ''abcd''
   \<and> int (length ''abc'') < 4
   \<and> chunker ''abc'' 4 2 = Inr [''ab'', ''c'']
   \<and> length (map clean example_df_preproc) \<noteq> length (take 1 example_df_preproc)
   \<and> preprocess_parallel example_ucd_lower example_nlp example_stopwords (take 1 example_df_preproc)
        (map clean example_df_preproc) 2
       = Inr [[py_str ''cat'', py_str ''sit''],
          [py_str ''dog'', py_str ''run'', py_str ''fast'']]"
  by code_simp

text \<open>
  Claim C9, the frame of the cleaner. For every table and every limit, row \<open>i\<close> of the
  returned table has the date, the headline and the content of row \<open>i\<close> of the input
  table; the returned table has no more rows than the input.
\<close>

theorem cleaner_frame:
  "length (cleaner limit df) \<le> length df
   \<and> (\<forall>i < length (cleaner limit df).
         date (cleaner limit df ! i) = date (df ! i)
       \<and> headline (cleaner limit df ! i) = headline (df ! i)
       \<and> content (cleaner limit df ! i) = content (df ! i))"
  by (simp add: cleaner_take add_clean_def)

text \<open>
  The second row of the example.
\<close>

theorem cleaner_frame_witness:
  "1 < length (cleaner 0 example_df)
   \<and> date (cleaner 0 example_df ! 1) = Timestamp 2016 4 2
   \<and> headline (cleaner 0 example_df ! 1) = py_str ''Dogs''
   \<and> content (cleaner 0 example_df ! 1) = py_str ''Dogs run fast''"
proof -
  have h: "1 < length (cleaner 0 example_df)" by code_simp
  have r: "example_df ! 1 =
      \<lparr>date = Timestamp 2016 4 2, headline = py_str ''Dogs'',
         content = py_str ''Dogs run fast''\<rparr>"
    by (simp add: example_df_def)
  from cleaner_frame [of 0 example_df] h
  have "date (cleaner 0 example_df ! 1) = date (example_df ! 1)
      \<and> headline (cleaner 0 example_df ! 1) = headline (example_df ! 1)
      \<and> content (cleaner 0 example_df ! 1) = content (example_df ! 1)"
    by blast
  with h r show ?thesis by simp
qed

text \<open>
  Claim C10, lower case, as amended. Every string of every lemma list is the \<^verbatim>\<open>lower()\<close>
  of the lemma of a token that passed the filter, in \<^verbatim>\<open>lemmatize_pipe\<close> and in the three
  workflows (which return, for each text, \<^verbatim>\<open>lemmatize_pipe\<close> of its document). When the
  code points of a lemma are all below 256, as those of an ASCII lemma are, its
  \<^verbatim>\<open>lower()\<close> contains no uppercase character and is its own \<^verbatim>\<open>lower()\<close>; so a document
  whose lemmas are all such gives a lemma list without any uppercase character. Nothing
  of the kind is promised for other lemmas.
\<close>

theorem lemmas_lowercase:
  "(\<forall>l \<in> set (lemmatize_pipe ucd_lower stopwords doc).
      \<exists>tok \<in> set doc. is_alpha tok \<and> lower ucd_lower (tok_text tok) \<notin> stopwords
        \<and> l = lower ucd_lower (tok_lemma tok))
   \<and> (\<forall>s. list_all (\<lambda>c. c < 256) s \<longrightarrow>
          list_all (\<lambda>c. \<not> is_uppercase ucd_isupper c) (lower ucd_lower s)
        \<and> lower ucd_lower (lower ucd_lower s) = lower ucd_lower s)
   \<and> ((\<forall>tok \<in> set doc. list_all (\<lambda>c. c < 256) (tok_lemma tok)) \<longrightarrow>
        (\<forall>l \<in> set (lemmatize_pipe ucd_lower stopwords doc).
           list_all (\<lambda>c. \<not> is_uppercase ucd_isupper c) l \<and> lower ucd_lower l = l))
   \<and> lemmatize ucd_lower nlp stopwords text = lemmatize_pipe ucd_lower stopwords (nlp text)
   \<and> preprocess_pipe ucd_lower nlp stopwords texts =
        map (\<lambda>t. lemmatize_pipe ucd_lower stopwords (nlp t)) texts
   \<and> (\<forall>out. preprocess_parallel ucd_lower nlp stopwords df_preproc texts chunksize = Inr out
          \<longrightarrow> (\<forall>ls \<in> set out. \<exists>t \<in> set texts.
                 ls = lemmatize_pipe ucd_lower stopwords (nlp t)))"
proof -
  have origin: "\<forall>l \<in> set (lemmatize_pipe ucd_lower stopwords doc).
      \<exists>tok \<in> set doc. is_alpha tok \<and> lower ucd_lower (tok_text tok) \<notin> stopwords
        \<and> l = lower ucd_lower (tok_lemma tok)"
    using lemmatize_pipe_origin by blast
  have latin: "\<forall>s. list_all (\<lambda>c. c < 256) s \<longrightarrow>
          list_all (\<lambda>c. \<not> is_uppercase ucd_isupper c) (lower ucd_lower s)
        \<and> lower ucd_lower (lower ucd_lower s) = lower ucd_lower s"
    using lower_latin1(3,4) by blast
  have doc: "(\<forall>tok \<in> set doc. list_all (\<lambda>c. c < 256) (tok_lemma tok)) \<longrightarrow>
        (\<forall>l \<in> set (lemmatize_pipe ucd_lower stopwords doc).
           list_all (\<lambda>c. \<not> is_uppercase ucd_isupper c) l \<and> lower ucd_lower l = l)"
  proof (intro impI ballI)
    fix l
    assume small: "\<forall>tok \<in> set doc. list_all (\<lambda>c. c < 256) (tok_lemma tok)"
      and "l \<in> set (lemmatize_pipe ucd_lower stopwords doc)"
    with origin obtain tok where "tok \<in> set doc" and l: "l = lower ucd_lower (tok_lemma tok)"
      by blast
    with small have "list_all (\<lambda>c. c < 256) (tok_lemma tok)" by blast
    with latin l
    show "list_all (\<lambda>c. \<not> is_uppercase ucd_isupper c) l \<and> lower ucd_lower l = l"
      by simp
  qed
  have par: "\<forall>ls \<in> set out. \<exists>t \<in> set texts. ls = lemmatize_pipe ucd_lower stopwords (nlp t)"
    if "preprocess_parallel ucd_lower nlp stopwords df_preproc texts chunksize = Inr out"
    for out
  proof -
    from that obtain chunks where
      run: "chunker texts (int (length df_preproc)) chunksize = Inr chunks" and
      out: "out = map (\<lambda>t. lemmatize_pipe ucd_lower stopwords (nlp t)) (concat chunks)"
      by (auto simp: preprocess_parallel_def dispatch_flatten split: sum.splits)
    from chunker_subset [OF run] out show ?thesis by auto
  qed
  from origin latin doc par lemmatize_eq_pipe preprocess_pipe_map show ?thesis
    by blast
qed

text \<open>
  The document of "Dogs run fast": its lemmas are ASCII, and the lemma "Dog" of the token
  "Dogs" comes out as "dog".
\<close>

theorem lemmas_lowercase_witness:
  "list_all (\<lambda>tok. list_all (\<lambda>c. c < 256) (tok_lemma tok)) (example_nlp (py_str ''Dogs run fast''))
   \<and> py_str ''dog''
        \<in> set (lemmatize_pipe example_ucd_lower example_stopwords
                 (example_nlp (py_str ''Dogs run fast'')))
   \<and> list_all (\<lambda>c. \<not> is_uppercase example_ucd_isupper c) (py_str ''dog'')
   \<and> lower example_ucd_lower (py_str ''dog'') = py_str ''dog''"
proof -
  let ?doc = "example_nlp (py_str ''Dogs run fast'')"
  have small: "list_all (\<lambda>tok. list_all (\<lambda>c. c < 256) (tok_lemma tok)) ?doc"
    by code_simp
  then have h: "\<forall>tok \<in> set ?doc. list_all (\<lambda>c. c < 256) (tok_lemma tok)"
    by (simp add: list_all_iff)
  have m: "py_str ''dog'' \<in> set (lemmatize_pipe example_ucd_lower example_stopwords ?doc)"
    by code_simp
  from lemmas_lowercase [where ucd_lower = example_ucd_lower and stopwords = example_stopwords
      and doc = ?doc and ucd_isupper = example_ucd_isupper] h m
  have "list_all (\<lambda>c. \<not> is_uppercase example_ucd_isupper c) (py_str ''dog'')
      \<and> lower example_ucd_lower (py_str ''dog'') = py_str ''dog''"
    by blast
  with small m show ?thesis by simp
qed

text \<open>
  The claim that the output never contains an uppercase character fails for a lemma
  with an uppercase code point that \<^verbatim>\<open>lower()\<close> leaves unchanged. The token whose text and
  lemma are the single code point U+03D2 (978) is alphabetic and is no stopword; its
  lemma list is that code point, which is uppercase.
\<close>

theorem lemmas_uppercase_counterexample:
  "lemmatize_pipe example_ucd_lower example_stopwords
     [\<lparr>tok_text = [978], tok_lemma = [978], is_alpha = True\<rparr>] = [[978]]
   \<and> is_uppercase example_ucd_isupper 978"
  by code_simp

end
